theory Spec2Isabelle
  imports Main "HOL-Library.AList" "HOL-Library.Sublist"
begin

section \<open>Strings and errors\<close>

text \<open>
  A JavaScript string is a sequence of UTF-16 code units. The gazetteer of
  \<open>RagService.extractCompanyName\<close> holds Korean names, so a string is modelled as the list
  of its code units; \<open>ascii\<close> embeds an ASCII literal.
\<close>

type_synonym jstring = "nat list"

definition ascii :: "string \<Rightarrow> jstring" where
  "ascii s = map of_char s"

text \<open>\<open>String.prototype.includes\<close>: the argument occurs as a contiguous substring.\<close>

definition js_includes :: "jstring \<Rightarrow> jstring \<Rightarrow> bool" where
  "js_includes s t = sublist t s"

text \<open>\<open>String.prototype.startsWith\<close>.\<close>

definition startsWith :: "jstring \<Rightarrow> jstring \<Rightarrow> bool" where
  "startsWith s t = prefix t s"

text \<open>Everything the modelled code can throw.\<close>

datatype error =
    FsError            \<comment> \<open>a call of the \<open>fs\<close> module threw (ENOENT, EACCES, ...)\<close>
  | SyntaxError        \<comment> \<open>\<open>JSON.parse\<close> threw\<close>
  | TypeError          \<comment> \<open>an argument of the wrong type, e.g. an undefined path\<close>
  | LoadError          \<comment> \<open>\<open>DocumentLoaderService\<close> threw\<close>
  | ChunkingError      \<comment> \<open>the text splitter threw\<close>
  | VectorStoreError   \<comment> \<open>the vector store threw\<close>
  | LLMError           \<comment> \<open>\<open>LLMService.generateAnswer\<close> threw\<close>

text \<open>
  A value thrown by a collaborator behind a promise (the text splitter, the embedding
  provider, the vector store) is either an \<open>Error\<close> object or, when a promise is
  rejected without a reason, \<open>null\<close> or \<open>undefined\<close>. The functions of Node's \<open>fs\<close>
  module and \<open>JSON.parse\<close> throw \<open>Error\<close> objects only.
\<close>

datatype thrown =
    Err error
  | Nullish

section \<open>IndexingHistoryService\<close>

text \<open>The interface \<open>FileIndexInfo\<close>.\<close>

record FileIndexInfo =
  hash :: jstring
  modifiedTime :: jstring
  chunkCount :: nat
  indexedAt :: jstring

text \<open>
  The private field \<open>history\<close> is a JavaScript \<open>Map\<close>: keys are unique and are iterated in
  insertion order; \<open>set\<close> on a present key overwrites the value in place, on an absent key it
  appends; \<open>delete\<close> removes the key. This is an association list with \<open>AList.update\<close>
  and \<open>AList.delete\<close>; \<open>get\<close> is \<open>map_of\<close>.
\<close>

type_synonym ledger = "(jstring \<times> FileIndexInfo) list"

text \<open>
  The state of the file \<open>.indexing-history.json\<close>, as \<open>loadHistory\<close> can find it: absent
  (\<open>fs.existsSync\<close> is false); present but \<open>fs.readFileSync\<close> throws; present and readable
  but \<open>JSON.parse\<close> (or \<open>Object.entries\<close> of its result) throws; or readable text whose
  parsed object has the given entries.
\<close>

datatype ledger_file =
    Absent
  | Unreadable
  | Corrupt
  | Parsable "(jstring \<times> FileIndexInfo) list"

text \<open>The lines the service's own \<open>Logger\<close> receives.\<close>

datatype log_entry =
    LoadFailedWarn error     \<comment> \<open>\<open>logger.warn\<close> in \<open>loadHistory\<close>\<close>
  | SaveFailedError error    \<comment> \<open>\<open>logger.error\<close> in \<open>saveHistory\<close>\<close>
  | HistoryClearedLog        \<comment> \<open>\<open>logger.log\<close> in \<open>clearHistory\<close>\<close>

record IndexingHistoryService =
  history :: ledger
  historyFile :: ledger_file
  logger :: "log_entry list"

text \<open>\<open>new Map(entries)\<close>: the entries are set one after the other.\<close>

definition Map_of_entries :: "(jstring \<times> FileIndexInfo) list \<Rightarrow> ledger" where
  "Map_of_entries es = foldl (\<lambda>m (k, v). AList.update k v m) [] es"

text \<open>
  The \<open>try\<close> block of \<open>loadHistory\<close>: \<open>Inl\<close> when it throws, \<open>Inr None\<close> when the file does
  not exist and control falls through, \<open>Inr (Some m)\<close> when it returns the loaded map.
\<close>

definition loadHistory_try :: "ledger_file \<Rightarrow> error + ledger option" where
  "loadHistory_try f =
     (case f of
        Absent \<Rightarrow> Inr None
      | Unreadable \<Rightarrow> Inl FsError
      | Corrupt \<Rightarrow> Inl SyntaxError
      | Parsable es \<Rightarrow> Inr (Some (Map_of_entries es)))"

text \<open>\<open>loadHistory\<close>: the \<open>catch\<close> logs a warning; both remaining paths return \<open>new Map()\<close>.\<close>

definition loadHistory :: "ledger_file \<Rightarrow> ledger \<times> log_entry list" where
  "loadHistory f =
     (case loadHistory_try f of
        Inl e \<Rightarrow> ([], [LoadFailedWarn e])
      | Inr None \<Rightarrow> ([], [])
      | Inr (Some m) \<Rightarrow> (m, []))"

text \<open>The constructor, run against the ledger file as it is on disk.\<close>

definition constructor :: "ledger_file \<Rightarrow> IndexingHistoryService" where
  "constructor f =
     (let (m, lg) = loadHistory f
      in \<lparr>history = m, historyFile = f, logger = lg\<rparr>)"

text \<open>
  \<open>saveHistory\<close>. The argument \<open>w\<close> is what \<open>fs.writeFileSync\<close> does in this call: \<open>None\<close>
  when it writes the file, \<open>Some e\<close> when it throws \<open>e\<close>. The \<open>try\<close> block first; a failed
  write is taken to leave the file as it was.
\<close>

definition saveHistory_try ::
  "error option \<Rightarrow> IndexingHistoryService \<Rightarrow> error + IndexingHistoryService" where
  "saveHistory_try w s =
     (case w of
        None \<Rightarrow> Inr (s\<lparr>historyFile := Parsable (history s)\<rparr>)
      | Some e \<Rightarrow> Inl e)"

definition saveHistory :: "error option \<Rightarrow> IndexingHistoryService \<Rightarrow> IndexingHistoryService" where
  "saveHistory w s =
     (case saveHistory_try w s of
        Inr s' \<Rightarrow> s'
      | Inl e \<Rightarrow> s\<lparr>logger := logger s @ [SaveFailedError e]\<rparr>)"

text \<open>\<open>recordIndexing\<close>; \<open>now\<close> is the value of \<open>new Date().toISOString()\<close>.\<close>

definition recordIndexing ::
  "error option \<Rightarrow> jstring \<Rightarrow> jstring \<Rightarrow> jstring \<Rightarrow> jstring \<Rightarrow> nat \<Rightarrow>
     IndexingHistoryService \<Rightarrow> IndexingHistoryService" where
  "recordIndexing w now filePath h mtime n s =
     saveHistory w
       (s\<lparr>history :=
            AList.update filePath
              \<lparr>hash = h, modifiedTime = mtime, chunkCount = n, indexedAt = now\<rparr>
              (history s)\<rparr>)"

definition isIndexed :: "IndexingHistoryService \<Rightarrow> jstring \<Rightarrow> bool" where
  "isIndexed s filePath = (map_of (history s) filePath \<noteq> None)"

definition hasChanged :: "IndexingHistoryService \<Rightarrow> jstring \<Rightarrow> jstring \<Rightarrow> bool" where
  "hasChanged s filePath currentHash =
     (case map_of (history s) filePath of
        None \<Rightarrow> True
      | Some record \<Rightarrow> hash record \<noteq> currentHash)"

definition removeRecord ::
  "error option \<Rightarrow> jstring \<Rightarrow> IndexingHistoryService \<Rightarrow> IndexingHistoryService" where
  "removeRecord w filePath s =
     saveHistory w (s\<lparr>history := AList.delete filePath (history s)\<rparr>)"

definition clearHistory :: "error option \<Rightarrow> IndexingHistoryService \<Rightarrow> IndexingHistoryService" where
  "clearHistory w s =
     (let s' = saveHistory w (s\<lparr>history := []\<rparr>)
      in s'\<lparr>logger := logger s' @ [HistoryClearedLog]\<rparr>)"

text \<open>
  The filesystem as \<open>FileHashUtil\<close> and \<open>fs.existsSync\<close> see it: a path either names
  no file or a file with the MD5 digest of its bytes, its modification time, its size, and
  whether it can be read.
\<close>

record disk_file =
  file_hash :: jstring
  file_mtime :: jstring
  file_size :: nat
  readable :: bool

type_synonym filesystem = "jstring \<Rightarrow> disk_file option"

definition existsSync :: "filesystem \<Rightarrow> jstring \<Rightarrow> bool" where
  "existsSync fs p = (fs p \<noteq> None)"

text \<open>\<open>findDeletedFiles\<close>: the keys of the map, in order, whose file does not exist.\<close>

definition findDeletedFiles :: "filesystem \<Rightarrow> IndexingHistoryService \<Rightarrow> jstring list" where
  "findDeletedFiles fs s = filter (\<lambda>filePath. \<not> existsSync fs filePath) (map fst (history s))"

section \<open>FileHashUtil\<close>

text \<open>The object \<open>getFileInfo\<close> returns.\<close>

record file_info =
  info_hash :: jstring
  info_modifiedTime :: jstring
  info_size :: nat

text \<open>\<open>calculateFileHash\<close> reads the file (\<open>fs.readFileSync\<close>) and digests it.\<close>

definition calculateFileHash :: "filesystem \<Rightarrow> jstring \<Rightarrow> error + jstring" where
  "calculateFileHash fs filePath =
     (case fs filePath of
        None \<Rightarrow> Inl FsError
      | Some f \<Rightarrow> if readable f then Inr (file_hash f) else Inl FsError)"

text \<open>\<open>getFileModifiedTime\<close> and \<open>getFileSize\<close> call \<open>fs.statSync\<close>.\<close>

definition getFileModifiedTime :: "filesystem \<Rightarrow> jstring \<Rightarrow> error + jstring" where
  "getFileModifiedTime fs filePath =
     (case fs filePath of None \<Rightarrow> Inl FsError | Some f \<Rightarrow> Inr (file_mtime f))"

definition getFileSize :: "filesystem \<Rightarrow> jstring \<Rightarrow> error + nat" where
  "getFileSize fs filePath =
     (case fs filePath of None \<Rightarrow> Inl FsError | Some f \<Rightarrow> Inr (file_size f))"

definition getFileInfo :: "filesystem \<Rightarrow> jstring \<Rightarrow> error + file_info" where
  "getFileInfo fs filePath =
     (case calculateFileHash fs filePath of
        Inl e \<Rightarrow> Inl e
      | Inr h \<Rightarrow>
          (case getFileModifiedTime fs filePath of
             Inl e \<Rightarrow> Inl e
           | Inr t \<Rightarrow>
               (case getFileSize fs filePath of
                  Inl e \<Rightarrow> Inl e
                | Inr n \<Rightarrow> Inr \<lparr>info_hash = h, info_modifiedTime = t, info_size = n\<rparr>)))"

section \<open>Documents\<close>

text \<open>
  The metadata object of a document. The code reads four of its keys, each of which may be
  missing: \<open>filePath\<close> and \<open>fileName\<close> (set by the loader) and \<open>company_name\<close>,
  \<open>company_name_en\<close> (copied from a JSON document's own metadata).
\<close>

record metadata =
  fileName :: "jstring option"
  filePath :: "jstring option"
  company_name :: "jstring option"
  company_name_en :: "jstring option"

definition empty_metadata :: metadata where
  "empty_metadata =
     \<lparr>fileName = None, filePath = None, company_name = None, company_name_en = None\<rparr>"

text \<open>What the loader returns for a file, and a chunk (a langchain \<open>Document\<close>).\<close>

record loaded_document =
  content :: jstring
  doc_metadata :: metadata

record Document =
  pageContent :: jstring
  metadata :: metadata

section \<open>DocumentLoaderService\<close>

text \<open>
  What \<open>getAllFiles\<close> meets in a directory, by the name \<open>fs.readdirSync\<close> lists: an entry
  that is not a directory; a directory with its own entries; an entry on which
  \<open>fs.statSync\<close> throws (a dangling link); a directory on which \<open>fs.readdirSync\<close> throws.
\<close>

datatype fs_item =
    FileItem jstring
  | DirItem jstring "fs_item list"
  | BrokenItem jstring
  | LockedDir jstring

text \<open>
  \<open>getAllFiles\<close>, run on the entries of \<open>dirPath\<close>; \<open>scanItem\<close> is the body of its loop.
  \<open>pj\<close> is \<open>path.join\<close>.
\<close>

fun getAllFiles ::
      "(jstring \<Rightarrow> jstring \<Rightarrow> jstring) \<Rightarrow> fs_item list \<Rightarrow> jstring \<Rightarrow> bool \<Rightarrow> error + jstring list"
  and scanItem ::
      "(jstring \<Rightarrow> jstring \<Rightarrow> jstring) \<Rightarrow> fs_item \<Rightarrow> jstring \<Rightarrow> bool \<Rightarrow> error + jstring list" where
  "getAllFiles pj [] dirPath recursive = Inr []"
| "getAllFiles pj (item # items) dirPath recursive =
     (case scanItem pj item dirPath recursive of
        Inl e \<Rightarrow> Inl e
      | Inr found \<Rightarrow>
          (case getAllFiles pj items dirPath recursive of
             Inl e \<Rightarrow> Inl e
           | Inr rest \<Rightarrow> Inr (found @ rest)))"
| "scanItem pj (FileItem item) dirPath recursive =
     (if \<not> startsWith item (ascii ''.'') then Inr [pj dirPath item] else Inr [])"
| "scanItem pj (DirItem item children) dirPath recursive =
     (if recursive then getAllFiles pj children (pj dirPath item) recursive else Inr [])"
| "scanItem pj (BrokenItem item) dirPath recursive = Inl FsError"
| "scanItem pj (LockedDir item) dirPath recursive =
     (if recursive then Inl FsError else Inr [])"

text \<open>\<open>path.join\<close> of a normalised, non-empty directory path and an entry name.\<close>

definition slash_join :: "jstring \<Rightarrow> jstring \<Rightarrow> jstring" where
  "slash_join dirPath item = dirPath @ ascii ''/'' @ item"

text \<open>
  \<open>loadFromFiles\<close> is \<open>Promise.all\<close> over \<open>loadFromFile\<close>: it is rejected as soon as
  one file cannot be loaded (here with the error of the first such file of the list) and
  resolves to the loaded documents, in order, otherwise. \<open>lf\<close> is \<open>loadFromFile\<close>.
\<close>

fun loadFromFiles ::
  "(jstring \<Rightarrow> error + loaded_document) \<Rightarrow> jstring list \<Rightarrow> error + loaded_document list" where
  "loadFromFiles lf [] = Inr []"
| "loadFromFiles lf (path # filePaths) =
     (case lf path of
        Inl e \<Rightarrow> Inl e
      | Inr d \<Rightarrow>
          (case loadFromFiles lf filePaths of
             Inl e \<Rightarrow> Inl e
           | Inr ds \<Rightarrow> Inr (d # ds)))"

section \<open>RagService: incremental indexing\<close>

text \<open>
  What \<open>RagService\<close> and its loader work against during one run of
  \<open>incrementalIndexDirectory\<close>: the entries \<open>fs.readdirSync\<close> finds under a directory
  (or its error), \<open>path.join\<close>, what \<open>DocumentLoaderService.loadFromFile\<close> returns or
  throws for a path (reading and parsing by file type are not modelled further; what it
  throws is always an \<open>Error\<close>), the filesystem as the hashing sees it, the text splitter
  applied to one text, the vector store's \<open>addDocuments\<close> (\<open>None\<close>: stored;
  \<open>Some t\<close>: threw \<open>t\<close>), what \<open>fs.writeFileSync\<close> does with the ledger file (the same
  at every write of the run), and the clock (read as one instant for the run). The
  filesystem does not change during the run.
\<close>

record env =
  directory :: "jstring \<Rightarrow> error + fs_item list"
  path_join :: "jstring \<Rightarrow> jstring \<Rightarrow> jstring"
  loadFromFile :: "jstring \<Rightarrow> error + loaded_document"
  files :: filesystem
  textSplitter :: "jstring \<Rightarrow> thrown + jstring list"
  vectorStore_addDocuments :: "Document list \<Rightarrow> thrown option"
  writeFileSync :: "error option"
  clock :: jstring

text \<open>
  \<open>DocumentLoaderService.loadFromDirectory\<close>: the scan, then all files loaded at once.
\<close>

definition loadFromDirectory :: "env \<Rightarrow> jstring \<Rightarrow> bool \<Rightarrow> error + loaded_document list" where
  "loadFromDirectory ev dirPath recursive =
     (case directory ev dirPath of
        Inl e \<Rightarrow> Inl e
      | Inr items \<Rightarrow>
          (case getAllFiles (path_join ev) items dirPath recursive of
             Inl e \<Rightarrow> Inl e
           | Inr found \<Rightarrow> loadFromFiles (loadFromFile ev) found))"

text \<open>
  \<open>ChunkingService.splitTexts\<close>: text number \<open>index\<close> becomes a document carrying
  \<open>metadata?.[index] || {}\<close>, and the documents are split in order.
\<close>

fun splitDocuments :: "(jstring \<Rightarrow> thrown + jstring list) \<Rightarrow> Document list \<Rightarrow> thrown + Document list" where
  "splitDocuments sp [] = Inr []"
| "splitDocuments sp (d # ds) =
     (case sp (pageContent d) of
        Inl e \<Rightarrow> Inl e
      | Inr cs \<Rightarrow>
          (case splitDocuments sp ds of
             Inl e \<Rightarrow> Inl e
           | Inr rest \<Rightarrow> Inr (map (\<lambda>c. \<lparr>pageContent = c, metadata = metadata d\<rparr>) cs @ rest)))"

definition splitTexts :: "env \<Rightarrow> jstring list \<Rightarrow> metadata list option \<Rightarrow> thrown + Document list" where
  "splitTexts ev texts mds =
     splitDocuments (textSplitter ev)
       (map (\<lambda>(index, text).
               \<lparr>pageContent = text,
                metadata = (case mds of
                              None \<Rightarrow> empty_metadata
                            | Some ms \<Rightarrow> if index < length ms then ms ! index else empty_metadata)\<rparr>)
            (enumerate 0 texts))"

text \<open>
  \<open>RagService.addDocuments\<close>, on the contents of the vector store: the new chunks are
  appended (the store never overwrites a point).
\<close>

definition addDocuments ::
  "env \<Rightarrow> jstring list \<Rightarrow> metadata list option \<Rightarrow> Document list \<Rightarrow> thrown + Document list" where
  "addDocuments ev texts mds store =
     (case splitTexts ev texts mds of
        Inl e \<Rightarrow> Inl e
      | Inr splitDocs \<Rightarrow>
          (case vectorStore_addDocuments ev splitDocs of
             Some e \<Rightarrow> Inl e
           | None \<Rightarrow> Inr (store @ splitDocs)))"

definition getChunkCount :: "env \<Rightarrow> jstring \<Rightarrow> thrown + nat" where
  "getChunkCount ev text =
     (case splitTexts ev [text] None of Inl e \<Rightarrow> Inl e | Inr docs \<Rightarrow> Inr (length docs))"

text \<open>
  The state the loop of \<open>incrementalIndexDirectory\<close> works on: its three counters, the
  history service and the contents of the vector store.
\<close>

record loop_state =
  cnt_added :: nat
  cnt_updated :: nat
  cnt_skipped :: nat
  indexingHistoryService :: IndexingHistoryService
  vectorStore :: "Document list"

text \<open>
  The \<open>try\<close> block for one document. The first component is the value thrown out of
  the block, if any; the second is the state at that point, with the effects that had
  already happened. An undefined \<open>filePath\<close> makes \<open>fs.readFileSync\<close> throw a type error.
\<close>

definition processFile_try :: "env \<Rightarrow> loaded_document \<Rightarrow> loop_state \<Rightarrow> thrown option \<times> loop_state" where
  "processFile_try ev doc s =
     (case filePath (doc_metadata doc) of
        None \<Rightarrow> (Some (Err TypeError), s)
      | Some fp \<Rightarrow>
     (case getFileInfo (files ev) fp of
        Inl e \<Rightarrow> (Some (Err e), s)
      | Inr fileInfo \<Rightarrow>
          if isIndexed (indexingHistoryService s) fp then
            if hasChanged (indexingHistoryService s) fp (info_hash fileInfo) then
              (case addDocuments ev [content doc] (Some [doc_metadata doc]) (vectorStore s) of
                 Inl e \<Rightarrow> (Some e, s)
               | Inr store' \<Rightarrow>
                   (case getChunkCount ev (content doc) of
                      Inl e \<Rightarrow> (Some e, s\<lparr>vectorStore := store'\<rparr>)
                    | Inr nChunks \<Rightarrow>
                        (None,
                         s\<lparr>vectorStore := store',
                           indexingHistoryService :=
                             recordIndexing (writeFileSync ev) (clock ev) fp
                               (info_hash fileInfo) (info_modifiedTime fileInfo) nChunks
                               (indexingHistoryService s),
                           cnt_updated := cnt_updated s + 1\<rparr>)))
            else (None, s\<lparr>cnt_skipped := cnt_skipped s + 1\<rparr>)
          else
            (case addDocuments ev [content doc] (Some [doc_metadata doc]) (vectorStore s) of
               Inl e \<Rightarrow> (Some e, s)
             | Inr store' \<Rightarrow>
                 (case getChunkCount ev (content doc) of
                    Inl e \<Rightarrow> (Some e, s\<lparr>vectorStore := store'\<rparr>)
                  | Inr nChunks \<Rightarrow>
                      (None,
                       s\<lparr>vectorStore := store',
                         indexingHistoryService :=
                           recordIndexing (writeFileSync ev) (clock ev) fp
                             (info_hash fileInfo) (info_modifiedTime fileInfo) nChunks
                             (indexingHistoryService s),
                         cnt_added := cnt_added s + 1\<rparr>)))))"

text \<open>
  The loop body, with its \<open>catch\<close>. The handler logs \<open>error.stack\<close>: for an \<open>Error\<close> that
  is all it does, and the loop goes on from the state reached; for \<open>null\<close> or
  \<open>undefined\<close> reading \<open>stack\<close> throws a type error out of the handler, which nothing
  catches.
\<close>

definition processFile :: "env \<Rightarrow> loaded_document \<Rightarrow> loop_state \<Rightarrow> error + loop_state" where
  "processFile ev doc s =
     (case processFile_try ev doc s of
        (None, s') \<Rightarrow> Inr s'
      | (Some (Err e), s') \<Rightarrow> Inr s'
      | (Some Nullish, s') \<Rightarrow> Inl TypeError)"

fun indexLoop :: "env \<Rightarrow> loaded_document list \<Rightarrow> loop_state \<Rightarrow> error + loop_state" where
  "indexLoop ev [] s = Inr s"
| "indexLoop ev (doc # documents) s =
     (case processFile ev doc s of
        Inl e \<Rightarrow> Inl e
      | Inr s' \<Rightarrow> indexLoop ev documents s')"

text \<open>The loop over \<open>deletedFiles\<close>.\<close>

fun removeRecords :: "error option \<Rightarrow> jstring list \<Rightarrow> IndexingHistoryService \<Rightarrow> IndexingHistoryService" where
  "removeRecords w [] h = h"
| "removeRecords w (fp # fps) h = removeRecords w fps (removeRecord w fp h)"

text \<open>The result object, and what persists between two calls on the same service.\<close>

record index_result =
  added :: nat
  updated :: nat
  deleted :: nat
  skipped :: nat
  total :: nat

record rag_state =
  ledger_service :: IndexingHistoryService
  vector_points :: "Document list"

definition loop_init :: "rag_state \<Rightarrow> loop_state" where
  "loop_init st =
     \<lparr>cnt_added = 0, cnt_updated = 0, cnt_skipped = 0,
      indexingHistoryService = ledger_service st, vectorStore = vector_points st\<rparr>"

text \<open>
  \<open>incrementalIndexDirectory\<close>. The loader is called outside any \<open>try\<close>: when it throws,
  the whole call is rejected, as it is when the handler of the loop throws.
\<close>

definition incrementalIndexDirectory ::
  "env \<Rightarrow> jstring \<Rightarrow> bool \<Rightarrow> rag_state \<Rightarrow> error + index_result \<times> rag_state" where
  "incrementalIndexDirectory ev dirPath recursive st =
     (case loadFromDirectory ev dirPath recursive of
        Inl e \<Rightarrow> Inl e
      | Inr documents \<Rightarrow>
          (case indexLoop ev documents (loop_init st) of
             Inl e \<Rightarrow> Inl e
           | Inr s \<Rightarrow>
               (let deletedFiles = findDeletedFiles (files ev) (indexingHistoryService s);
                    h = (if length deletedFiles > 0
                         then removeRecords (writeFileSync ev) deletedFiles
                                (indexingHistoryService s)
                         else indexingHistoryService s)
                in Inr (\<lparr>added = cnt_added s, updated = cnt_updated s,
                          deleted = length deletedFiles, skipped = cnt_skipped s,
                          total = cnt_added s + cnt_updated s + cnt_skipped s\<rparr>,
                        \<lparr>ledger_service = h, vector_points = vectorStore s\<rparr>))))"

section \<open>RagService: query and re-ranking\<close>

text \<open>
  The table \<open>companies\<close> of \<open>extractCompanyName\<close>, in its order. A Korean name is
  written as its UTF-16 code units; the first one is U+CFE0 U+D321.
\<close>

record company =
  ko :: jstring
  en :: jstring

definition companies :: "company list" where
  "companies =
     [\<lparr>ko = [53216, 54049], en = ascii ''coupang''\<rparr>,
      \<lparr>ko = [53664, 49828], en = ascii ''toss''\<rparr>,
      \<lparr>ko = [52992, 51060, 48197, 53356], en = ascii ''kbank''\<rparr>,
      \<lparr>ko = [45348, 51060, 48260], en = ascii ''naver''\<rparr>,
      \<lparr>ko = [52852, 52852, 50724], en = ascii ''kakao''\<rparr>,
      \<lparr>ko = [49340, 49457], en = ascii ''samsung''\<rparr>,
      \<lparr>ko = [54788, 45824], en = ascii ''hyundai''\<rparr>,
      \<lparr>ko = ascii ''lg'', en = ascii ''lg''\<rparr>,
      \<lparr>ko = ascii ''skt'', en = ascii ''skt''\<rparr>,
      \<lparr>ko = [48176, 45804, 51032, 48124, 51313], en = ascii ''woowa''\<rparr>,
      \<lparr>ko = [50864, 50500, 54620, 54805, 51228, 46308], en = ascii ''woowa''\<rparr>,
      \<lparr>ko = [51649, 48169], en = ascii ''zigbang''\<rparr>]"

text \<open>
  \<open>String.prototype.toLowerCase\<close> follows the Unicode case tables, which are not part of
  the repository: the functions below take it as the parameter \<open>lower\<close>. \<open>asciiLower\<close>
  is its restriction to strings whose cased letters are ASCII, used to evaluate examples.
\<close>

definition asciiLower :: "jstring \<Rightarrow> jstring" where
  "asciiLower s = map (\<lambda>u. if 65 \<le> u \<and> u \<le> 90 then u + 32 else u) s"

text \<open>The condition of the \<open>if\<close> inside the loop of \<open>extractCompanyName\<close>.\<close>

definition companyMatches :: "jstring \<Rightarrow> jstring \<Rightarrow> company \<Rightarrow> bool" where
  "companyMatches question lowerQuestion c =
     (js_includes question (ko c) \<or> js_includes lowerQuestion (en c))"

fun extractLoop :: "jstring \<Rightarrow> jstring \<Rightarrow> company list \<Rightarrow> jstring option" where
  "extractLoop question lowerQuestion [] = None"
| "extractLoop question lowerQuestion (c # cs) =
     (if companyMatches question lowerQuestion c then Some (ko c)
      else extractLoop question lowerQuestion cs)"

definition extractCompanyName :: "(jstring \<Rightarrow> jstring) \<Rightarrow> jstring \<Rightarrow> jstring option" where
  "extractCompanyName lower question = extractLoop question (lower question) companies"

text \<open>\<open>x?.toLowerCase() || ''\<close>.\<close>

definition lowerOrEmpty :: "(jstring \<Rightarrow> jstring) \<Rightarrow> jstring option \<Rightarrow> jstring" where
  "lowerOrEmpty lower x = (case x of None \<Rightarrow> [] | Some v \<Rightarrow> lower v)"

text \<open>The callback of \<open>candidateDocs.filter\<close> in \<open>query\<close>.\<close>

definition companyFilter :: "(jstring \<Rightarrow> jstring) \<Rightarrow> jstring \<Rightarrow> Document \<Rightarrow> bool" where
  "companyFilter lower companyName doc =
     (let md = metadata doc;
          fileName' = lowerOrEmpty lower (fileName md);
          docCompanyName = lowerOrEmpty lower (company_name md);
          companyNameEn = lowerOrEmpty lower (company_name_en md);
          searchTerm = lower companyName
      in js_includes fileName' searchTerm \<or>
         js_includes docCompanyName searchTerm \<or>
         js_includes companyNameEn searchTerm)"

text \<open>
  Step 3 of \<open>query\<close>: the value of the local \<open>relevantDocs\<close>. The test \<open>if (companyName)\<close>
  is false for \<open>null\<close> and for the empty string.
\<close>

definition relevantDocs :: "(jstring \<Rightarrow> jstring) \<Rightarrow> jstring \<Rightarrow> Document list \<Rightarrow> Document list" where
  "relevantDocs lower question candidateDocs =
     (case extractCompanyName lower question of
        None \<Rightarrow> take 4 candidateDocs
      | Some companyName \<Rightarrow>
          if companyName = [] then take 4 candidateDocs
          else
            (let filteredDocs = filter (companyFilter lower companyName) candidateDocs
             in if length filteredDocs > 0 then take 4 filteredDocs else take 4 candidateDocs))"

text \<open>\<open>Array.prototype.join\<close>.\<close>

fun join :: "jstring list \<Rightarrow> jstring \<Rightarrow> jstring" where
  "join [] sep = []"
| "join [x] sep = x"
| "join (x # y # ys) sep = x @ sep @ join (y # ys) sep"

record query_result =
  answer :: jstring
  sourceDocuments :: "Document list"

text \<open>
  \<open>query\<close>. \<open>search\<close> is \<open>VectorStoreService.similaritySearch\<close> and \<open>llm\<close> is
  \<open>LLMService.generateAnswer\<close>; either may throw, and \<open>query\<close> catches nothing.
\<close>

definition query ::
  "(jstring \<Rightarrow> jstring) \<Rightarrow> (jstring \<Rightarrow> nat \<Rightarrow> error + Document list) \<Rightarrow>
   (jstring \<Rightarrow> jstring \<Rightarrow> error + jstring) \<Rightarrow> jstring \<Rightarrow> error + query_result" where
  "query lower search llm question =
     (case search question 10 of
        Inl e \<Rightarrow> Inl e
      | Inr candidateDocs \<Rightarrow>
          (let docs = relevantDocs lower question candidateDocs;
               context = join (map pageContent docs) (ascii [CHR 0x0A, CHR 0x0A])
           in case llm context question of
                Inl e \<Rightarrow> Inl e
              | Inr a \<Rightarrow> Inr \<lparr>answer = a, sourceDocuments = docs\<rparr>))"

section \<open>Predicates used in the statements and proofs\<close>

text \<open>
  A document is processed without a per-file failure: its path is defined, its file can be
  hashed, and chunking, the vector store and the chunk count all succeed. Whether
  \<open>addDocuments\<close> succeeds does not depend on what the store holds, so the empty store
  stands for any.
\<close>

definition processes_cleanly :: "env \<Rightarrow> loaded_document \<Rightarrow> bool" where
  "processes_cleanly ev doc =
     (case filePath (doc_metadata doc) of
        None \<Rightarrow> False
      | Some fp \<Rightarrow>
          (case getFileInfo (files ev) fp of
             Inl e \<Rightarrow> False
           | Inr fileInfo \<Rightarrow>
               (case addDocuments ev [content doc] (Some [doc_metadata doc]) [] of
                  Inl e \<Rightarrow> False
                | Inr store' \<Rightarrow>
                    (case getChunkCount ev (content doc) of Inl e \<Rightarrow> False | Inr n \<Rightarrow> True))))"


text \<open>
  The number of documents whose \<open>try\<close> block is left by a thrown value, for as long as
  the loop runs.
\<close>

fun failedFiles :: "env \<Rightarrow> loaded_document list \<Rightarrow> loop_state \<Rightarrow> nat" where
  "failedFiles ev [] s = 0"
| "failedFiles ev (doc # documents) s =
     (if fst (processFile_try ev doc s) = None then 0 else 1) +
     (case processFile ev doc s of
        Inl e \<Rightarrow> 0
      | Inr s' \<Rightarrow> failedFiles ev documents s')"




definition throws_nullish :: "env \<Rightarrow> loaded_document \<Rightarrow> bool" where
  "throws_nullish ev doc =
     (case addDocuments ev [content doc] (Some [doc_metadata doc]) [] of
        Inl t \<Rightarrow> t = Nullish
      | Inr store' \<Rightarrow>
          (case getChunkCount ev (content doc) of Inl t \<Rightarrow> t = Nullish | Inr n \<Rightarrow> False))"

section \<open>Example data\<close>

text \<open>
  A directory \<open>/d\<close> with two readable files, \<open>/d/a\<close> and \<open>/d/b\<close>; a ledger that records
  \<open>/d/a\<close> with an older hash (and the same modification time) and \<open>/d/c\<close>, which is no
  longer on disk; collaborators that never fail. The environment is given by the names
  the directory lists.
\<close>

definition ex_meta :: "jstring \<Rightarrow> metadata" where
  "ex_meta p = \<lparr>fileName = Some p, filePath = Some p, company_name = None, company_name_en = None\<rparr>"

definition ex_doc :: "jstring \<Rightarrow> loaded_document" where
  "ex_doc p = \<lparr>content = ascii ''text'', doc_metadata = ex_meta p\<rparr>"

definition ex_file :: "jstring \<Rightarrow> disk_file" where
  "ex_file h = \<lparr>file_hash = h, file_mtime = ascii ''t0'', file_size = 4, readable = True\<rparr>"

definition ex_files :: filesystem where
  "ex_files =
     (\<lambda>p. if p = ascii ''/d/a'' then Some (ex_file (ascii ''h1''))
          else if p = ascii ''/d/b'' then Some (ex_file (ascii ''h2''))
          else None)"

definition ex_env :: "jstring list \<Rightarrow> env" where
  "ex_env names =
     \<lparr>directory = (\<lambda>dirPath. Inr (map FileItem names)),
      path_join = slash_join,
      loadFromFile = (\<lambda>path. Inr (ex_doc path)),
      files = ex_files,
      textSplitter = (\<lambda>text. Inr [text]),
      vectorStore_addDocuments = (\<lambda>docs. None),
      writeFileSync = None,
      clock = ascii ''t1''\<rparr>"

definition ex_names :: "jstring list" where
  "ex_names = [ascii ''a'', ascii ''b'']"

definition ex_docs :: "loaded_document list" where
  "ex_docs = [ex_doc (ascii ''/d/a''), ex_doc (ascii ''/d/b'')]"

text \<open>
  The same directory listing a third name, \<open>x\<close>: the loader returns a document for it,
  but its file cannot be read when it is hashed.
\<close>

definition ex_names_x :: "jstring list" where
  "ex_names_x = [ascii ''a'', ascii ''x'', ascii ''b'']"

definition ex_docs_x :: "loaded_document list" where
  "ex_docs_x = [ex_doc (ascii ''/d/a''), ex_doc (ascii ''/d/x''), ex_doc (ascii ''/d/b'')]"

text \<open>The two files again, with a vector store that throws an \<open>Error\<close> at every call.\<close>

definition ex_env_down :: env where
  "ex_env_down =
     (ex_env ex_names)\<lparr>vectorStore_addDocuments := (\<lambda>docs. Some (Err VectorStoreError))\<rparr>"

text \<open>
  The directory with \<open>a\<close> and a file \<open>bad.json\<close> that \<open>loadFromFile\<close> cannot parse.
\<close>

definition ex_env_bad :: env where
  "ex_env_bad =
     (ex_env [ascii ''a'', ascii ''bad.json''])
       \<lparr>loadFromFile :=
          (\<lambda>path. if path = ascii ''/d/bad.json'' then Inl LoadError else Inr (ex_doc path))\<rparr>"

definition ex_record :: "jstring \<Rightarrow> FileIndexInfo" where
  "ex_record h = \<lparr>hash = h, modifiedTime = ascii ''t0'', chunkCount = 1, indexedAt = ascii ''t0''\<rparr>"

definition ex_service :: IndexingHistoryService where
  "ex_service =
     \<lparr>history = [(ascii ''/d/a'', ex_record (ascii ''h0'')), (ascii ''/d/c'', ex_record (ascii ''h3''))],
      historyFile = Absent, logger = []\<rparr>"

definition ex_state :: rag_state where
  "ex_state = \<lparr>ledger_service = ex_service, vector_points = []\<rparr>"

text \<open>
  Five candidate chunks: two tagged only with the alias \<open>Coupang\<close>, two tagged with the
  Korean name of Toss, one untagged.
\<close>

definition ex_chunk :: "string \<Rightarrow> jstring option \<Rightarrow> jstring option \<Rightarrow> Document" where
  "ex_chunk text cn cne =
     \<lparr>pageContent = ascii text,
      metadata = \<lparr>fileName = None, filePath = None, company_name = cn, company_name_en = cne\<rparr>\<rparr>"

definition ex_candidates :: "Document list" where
  "ex_candidates =
     [ex_chunk ''c1'' None (Some (ascii ''Coupang'')),
      ex_chunk ''c2'' (Some [53664, 49828]) (Some (ascii ''toss'')),
      ex_chunk ''c3'' None (Some (ascii ''Coupang'')),
      ex_chunk ''c4'' (Some [53664, 49828]) None,
      ex_chunk ''c5'' None None]"

definition ex_search :: "jstring \<Rightarrow> nat \<Rightarrow> error + Document list" where
  "ex_search q k = Inr ex_candidates"

definition ex_llm :: "jstring \<Rightarrow> jstring \<Rightarrow> error + jstring" where
  "ex_llm context' q = Inr context'"

text \<open>
  Two candidates for a question about LG: one tagged only \<open>LG\<close> in \<open>company_name_en\<close>,
  one tagged \<open>Coupang\<close>.
\<close>

definition ex_candidates_lg :: "Document list" where
  "ex_candidates_lg =
     [ex_chunk ''c6'' None (Some (ascii ''Coupang'')),
      ex_chunk ''c7'' None (Some (ascii ''LG''))]"

text \<open>
  A directory holding a hidden file, a visible file and a hidden directory with one file.
\<close>

definition ex_items :: "fs_item list" where
  "ex_items =
     [FileItem (ascii ''.env''),
      FileItem (ascii ''a.txt''),
      DirItem (ascii ''.git'') [FileItem (ascii ''config'')]]"

section \<open>The history service: basic facts\<close>

lemma history_saveHistory [simp]: "history (saveHistory w s) = history s"
  by (simp add: saveHistory_def saveHistory_try_def split: option.splits)

lemma history_recordIndexing [simp]:
  "history (recordIndexing w now fp h m n s) =
     AList.update fp \<lparr>hash = h, modifiedTime = m, chunkCount = n, indexedAt = now\<rparr> (history s)"
  by (simp add: recordIndexing_def)

lemma history_removeRecord [simp]:
  "history (removeRecord w fp s) = AList.delete fp (history s)"
  by (simp add: removeRecord_def)


lemma map_of_removeRecords:
  "map_of (history (removeRecords w fps h)) k =
     (if k \<in> set fps then None else map_of (history h) k)"
  by (induction fps arbitrary: h) (auto simp: delete_conv')


lemma removeRecords_if:
  "(if length fps > 0 then removeRecords w fps h else h) = removeRecords w fps h"
  by (cases fps) simp_all

lemma isIndexed_keys: "isIndexed h p \<longleftrightarrow> p \<in> set (map fst (history h))"
  by (auto simp: isIndexed_def map_of_eq_None_iff)

lemma count_list_distinct:
  "distinct xs \<Longrightarrow> x \<in> set xs \<Longrightarrow> count_list xs x = 1"
  by (induction xs) auto


lemma addDocuments_store:
  "addDocuments ev texts mds store = Inr store' \<Longrightarrow>
     \<exists>chunks. store' = store @ chunks \<and> addDocuments ev texts mds store0 = Inr (store0 @ chunks)"
  by (auto simp: addDocuments_def split: sum.splits option.splits)

lemma addDocuments_throws:
  "addDocuments ev texts mds store = Inl t \<Longrightarrow> addDocuments ev texts mds store0 = Inl t"
  by (auto simp: addDocuments_def split: sum.splits option.splits)

section \<open>One document of the loop\<close>

text \<open>The state the \<open>try\<close> block reaches, whatever it throws.\<close>

lemma processFile_Inr:
  "processFile ev doc s = Inr s' \<longleftrightarrow>
     s' = snd (processFile_try ev doc s) \<and> fst (processFile_try ev doc s) \<noteq> Some Nullish"
  by (auto simp: processFile_def split: prod.splits option.splits thrown.splits)

lemma processFile_Inl:
  "processFile ev doc s = Inl e \<longleftrightarrow>
     fst (processFile_try ev doc s) = Some Nullish \<and> e = TypeError"
  by (auto simp: processFile_def split: prod.splits option.splits thrown.splits)

lemma processFile_Err:
  "fst (processFile_try ev doc s) = Some (Err e) \<Longrightarrow>
     processFile ev doc s = Inr (snd (processFile_try ev doc s))"
  by (simp add: processFile_Inr)

lemma processFile_None:
  "fst (processFile_try ev doc s) = None \<Longrightarrow>
     processFile ev doc s = Inr (snd (processFile_try ev doc s))"
  by (simp add: processFile_Inr)

lemma try_counters:
  "cnt_added (snd (processFile_try ev doc s)) + cnt_updated (snd (processFile_try ev doc s))
     + cnt_skipped (snd (processFile_try ev doc s))
     + (if fst (processFile_try ev doc s) = None then 0 else 1)
   = cnt_added s + cnt_updated s + cnt_skipped s + 1"
  by (simp add: processFile_try_def split: option.splits sum.splits)

lemma try_throws:
  "fst (processFile_try ev doc s) = Some t \<Longrightarrow>
     cnt_added (snd (processFile_try ev doc s)) = cnt_added s \<and>
     cnt_updated (snd (processFile_try ev doc s)) = cnt_updated s \<and>
     cnt_skipped (snd (processFile_try ev doc s)) = cnt_skipped s \<and>
     indexingHistoryService (snd (processFile_try ev doc s)) = indexingHistoryService s"
  by (auto simp: processFile_try_def split: option.splits sum.splits if_splits)

lemma try_history:
  "history (indexingHistoryService (snd (processFile_try ev doc s))) =
     history (indexingHistoryService s) \<or>
   (\<exists>fp f n. filePath (doc_metadata doc) = Some fp \<and> files ev fp = Some f \<and> readable f \<and>
       history (indexingHistoryService (snd (processFile_try ev doc s))) =
         AList.update fp
           \<lparr>hash = file_hash f, modifiedTime = file_mtime f, chunkCount = n, indexedAt = clock ev\<rparr>
           (history (indexingHistoryService s)))"
  by (auto simp: processFile_try_def getFileInfo_def calculateFileHash_def
        getFileModifiedTime_def getFileSize_def
      split: option.splits sum.splits)


lemma try_nullish:
  "fst (processFile_try ev doc s) = Some Nullish \<Longrightarrow> throws_nullish ev doc"
  by (auto simp: processFile_try_def throws_nullish_def addDocuments_def
      split: option.splits sum.splits if_splits)

lemma processes_cleanly_no_throw:
  assumes "processes_cleanly ev doc"
  shows "fst (processFile_try ev doc s) = None"
proof -
  from assms obtain fp fi st n where
    fp: "filePath (doc_metadata doc) = Some fp" and fi: "getFileInfo (files ev) fp = Inr fi"
    and ad: "addDocuments ev [content doc] (Some [doc_metadata doc]) [] = Inr st"
    and cc: "getChunkCount ev (content doc) = Inr n"
    by (auto simp: processes_cleanly_def split: option.splits sum.splits)
  from addDocuments_store [OF ad, of "vectorStore s"] obtain st' where
    "addDocuments ev [content doc] (Some [doc_metadata doc]) (vectorStore s) = Inr st'"
    by auto
  with fp fi cc show ?thesis
    by (simp add: processFile_try_def)
qed





lemma isIndexed_try:
  "isIndexed (indexingHistoryService s) p \<Longrightarrow>
     isIndexed (indexingHistoryService (snd (processFile_try ev doc s))) p"
  using try_history [of ev doc s]
  by (auto simp: isIndexed_def update_conv')

lemma distinct_try:
  "distinct (map fst (history (indexingHistoryService s))) \<Longrightarrow>
     distinct (map fst (history (indexingHistoryService (snd (processFile_try ev doc s)))))"
  using try_history [of ev doc s]
  by (auto simp: distinct_update)

section \<open>The loop\<close>

lemma indexLoop_Cons:
  "indexLoop ev (doc # documents) s = Inr s' \<longleftrightarrow>
     fst (processFile_try ev doc s) \<noteq> Some Nullish \<and>
     indexLoop ev documents (snd (processFile_try ev doc s)) = Inr s'"
proof (cases "fst (processFile_try ev doc s) = Some Nullish")
  case True
  then have "processFile ev doc s = Inl TypeError"
    by (simp add: processFile_Inl)
  with True show ?thesis by simp
next
  case False
  then have "processFile ev doc s = Inr (snd (processFile_try ev doc s))"
    by (simp add: processFile_Inr)
  with False show ?thesis by simp
qed

lemma indexLoop_counters:
  "indexLoop ev documents s = Inr s' \<Longrightarrow>
     cnt_added s' + cnt_updated s' + cnt_skipped s' + failedFiles ev documents s
       = cnt_added s + cnt_updated s + cnt_skipped s + length documents"
proof (induction documents arbitrary: s)
  case Nil
  then show ?case by simp
next
  case (Cons doc documents)
  let ?s1 = "snd (processFile_try ev doc s)"
  from Cons.prems have ok: "fst (processFile_try ev doc s) \<noteq> Some Nullish"
    and rest: "indexLoop ev documents ?s1 = Inr s'"
    by (simp_all add: indexLoop_Cons del: indexLoop.simps)
  from ok have step: "processFile ev doc s = Inr ?s1"
    by (simp add: processFile_Inr)
  show ?case
    using Cons.IH [OF rest] try_counters [of ev doc s]
    by (simp add: step split: if_splits)
qed

lemma indexLoop_returns:
  "\<forall>doc\<in>set documents. \<not> throws_nullish ev doc \<Longrightarrow> \<exists>s'. indexLoop ev documents s = Inr s'"
proof (induction documents arbitrary: s)
  case Nil
  then show ?case by simp
next
  case (Cons doc documents)
  have "fst (processFile_try ev doc s) \<noteq> Some Nullish"
    using Cons.prems try_nullish [of ev doc s] by auto
  moreover obtain s' where "indexLoop ev documents (snd (processFile_try ev doc s)) = Inr s'"
    using Cons.IH [of "snd (processFile_try ev doc s)"] Cons.prems by auto
  ultimately show ?case by (auto simp: indexLoop_Cons simp del: indexLoop.simps)
qed




lemma isIndexed_indexLoop:
  "indexLoop ev documents s = Inr s' \<Longrightarrow>
     isIndexed (indexingHistoryService s) p \<Longrightarrow> isIndexed (indexingHistoryService s') p"
  by (induction documents arbitrary: s)
    (auto simp: indexLoop_Cons simp del: indexLoop.simps(2) intro: isIndexed_try)

lemma distinct_indexLoop:
  "indexLoop ev documents s = Inr s' \<Longrightarrow>
     distinct (map fst (history (indexingHistoryService s))) \<Longrightarrow>
     distinct (map fst (history (indexingHistoryService s')))"
  by (induction documents arbitrary: s)
    (auto simp: indexLoop_Cons simp del: indexLoop.simps(2) intro: distinct_try)


section \<open>The run\<close>

lemma incrementalIndexDirectory_loaded:
  assumes "loadFromDirectory ev dirPath recursive = Inr documents"
      and "indexLoop ev documents (loop_init st) = Inr s"
  shows "incrementalIndexDirectory ev dirPath recursive st =
     Inr (\<lparr>added = cnt_added s, updated = cnt_updated s,
           deleted = length (findDeletedFiles (files ev) (indexingHistoryService s)),
           skipped = cnt_skipped s,
           total = cnt_added s + cnt_updated s + cnt_skipped s\<rparr>,
          \<lparr>ledger_service =
             removeRecords (writeFileSync ev)
               (findDeletedFiles (files ev) (indexingHistoryService s))
               (indexingHistoryService s),
           vector_points = vectorStore s\<rparr>)"
  by (simp add: incrementalIndexDirectory_def assms Let_def removeRecords_if)

lemma incrementalIndexDirectory_Inr:
  assumes "incrementalIndexDirectory ev dirPath recursive st = Inr (r, st')"
      and "loadFromDirectory ev dirPath recursive = Inr documents"
  obtains s where "indexLoop ev documents (loop_init st) = Inr s"
    and "r = \<lparr>added = cnt_added s, updated = cnt_updated s,
           deleted = length (findDeletedFiles (files ev) (indexingHistoryService s)),
           skipped = cnt_skipped s,
           total = cnt_added s + cnt_updated s + cnt_skipped s\<rparr>"
    and "st' = \<lparr>ledger_service =
             removeRecords (writeFileSync ev)
               (findDeletedFiles (files ev) (indexingHistoryService s))
               (indexingHistoryService s),
           vector_points = vectorStore s\<rparr>"
  using assms
  by (auto simp: incrementalIndexDirectory_def Let_def removeRecords_if split: sum.splits)

text \<open>Rules that evaluate the model on the example data.\<close>

lemmas ex_defs = ex_env_def ex_files_def ex_file_def ex_doc_def ex_meta_def ex_state_def
  ex_service_def ex_record_def ex_docs_def ex_docs_x_def ex_names_def ex_names_x_def
  ex_env_down_def ex_env_bad_def ascii_def

lemmas run_defs = getFileInfo_def calculateFileHash_def getFileModifiedTime_def getFileSize_def
  addDocuments_def splitTexts_def getChunkCount_def

lemmas load_defs = loadFromDirectory_def slash_join_def startsWith_def

lemmas loop_defs = loop_init_def processFile_def processFile_try_def isIndexed_def
  hasChanged_def

lemma ex_load: "loadFromDirectory (ex_env ex_names) (ascii ''/d'') True = Inr ex_docs"
  by (simp add: load_defs ex_defs)

lemma ex_load_x: "loadFromDirectory (ex_env ex_names_x) (ascii ''/d'') True = Inr ex_docs_x"
  by (simp add: load_defs ex_defs)

lemma ex_load_down: "loadFromDirectory ex_env_down (ascii ''/d'') True = Inr ex_docs"
  by (simp add: load_defs ex_defs)

section \<open>Classification of the scanned documents\<close>










section \<open>Reconciliation\<close>



text \<open>
  Claim C4 (deletion detection). In a run whose loop over the scan ends, a path \<open>p\<close>
  that the ledger records and whose file is not on disk is, after the loop, among the
  paths \<open>findDeletedFiles\<close> returns, exactly once; \<open>deleted\<close> is the length of that list;
  and the ledger of the resulting state has no record for \<open>p\<close>. The list is computed
  from the ledger and the disk alone: a recorded path whose file exists keeps its record
  whether or not the scan contains it.
\<close>

theorem deletion_detection:
  assumes load: "loadFromDirectory ev dirPath recursive = Inr documents"
      and loop: "indexLoop ev documents (loop_init st) = Inr s"
      and dist: "distinct (map fst (history (ledger_service st)))"
      and inl: "isIndexed (ledger_service st) p"
      and gone: "\<not> existsSync (files ev) p"
  shows "\<exists>r st'.
           incrementalIndexDirectory ev dirPath recursive st = Inr (r, st') \<and>
           deleted r = length (findDeletedFiles (files ev) (indexingHistoryService s)) \<and>
           count_list (findDeletedFiles (files ev) (indexingHistoryService s)) p = 1 \<and>
           \<not> isIndexed (ledger_service st') p \<and>
           (\<forall>q. isIndexed (ledger_service st) q \<longrightarrow> existsSync (files ev) q \<longrightarrow>
                  isIndexed (ledger_service st') q)"
proof -
  define h where "h = indexingHistoryService s"
  define dels where "dels = findDeletedFiles (files ev) h"
  define h' where "h' = removeRecords (writeFileSync ev) dels h"
  define r where "r = \<lparr>added = cnt_added s, updated = cnt_updated s,
      deleted = length dels, skipped = cnt_skipped s,
      total = cnt_added s + cnt_updated s + cnt_skipped s\<rparr>"
  define st' where "st' = \<lparr>ledger_service = h', vector_points = vectorStore s\<rparr>"
  have run: "incrementalIndexDirectory ev dirPath recursive st = Inr (r, st')"
    by (simp add: incrementalIndexDirectory_loaded [OF load loop]
          r_def st'_def h'_def dels_def h_def)
  have keep: "isIndexed h q" if "isIndexed (ledger_service st) q" for q
    unfolding h_def using loop
    by (rule isIndexed_indexLoop) (simp add: loop_init_def that)
  have dh: "distinct (map fst (history h))"
    unfolding h_def using loop
    by (rule distinct_indexLoop) (simp add: loop_init_def dist)
  have pin: "p \<in> set dels"
    using keep [OF inl] gone by (simp add: dels_def findDeletedFiles_def isIndexed_keys)
  have "distinct dels"
    using dh by (simp add: dels_def findDeletedFiles_def)
  with pin have once: "count_list dels p = 1"
    by (simp add: count_list_distinct)
  have out: "\<not> isIndexed h' p"
    using pin by (simp add: isIndexed_def h'_def map_of_removeRecords)
  have stay: "isIndexed h' q" if "isIndexed (ledger_service st) q" "existsSync (files ev) q" for q
    using keep [OF that(1)] that(2)
    by (simp add: isIndexed_def h'_def map_of_removeRecords dels_def findDeletedFiles_def)
  show ?thesis
    using run once out stay
    by (auto simp: r_def st'_def dels_def h_def)
qed

text \<open>
  On the example: \<open>/d/c\<close> is recorded and not on disk; the run reports one deletion and
  drops the record, while \<open>/d/a\<close> stays.
\<close>

theorem deletion_detection_witness:
  "isIndexed (ledger_service ex_state) (ascii ''/d/c'') \<and>
   \<not> existsSync (files (ex_env ex_names)) (ascii ''/d/c'') \<and>
   (\<exists>r st'.
      incrementalIndexDirectory (ex_env ex_names) (ascii ''/d'') True ex_state = Inr (r, st') \<and>
      deleted r = 1 \<and>
      \<not> isIndexed (ledger_service st') (ascii ''/d/c'') \<and>
      isIndexed (ledger_service st') (ascii ''/d/a''))"
proof -
  obtain s where loop: "indexLoop (ex_env ex_names) ex_docs (loop_init ex_state) = Inr s"
    and dels: "findDeletedFiles (files (ex_env ex_names)) (indexingHistoryService s) =
      [ascii ''/d/c'']"
    by (simp add: findDeletedFiles_def existsSync_def loop_defs run_defs ex_defs)
  have dist: "distinct (map fst (history (ledger_service ex_state)))"
    by (simp add: ex_defs)
  have inl: "isIndexed (ledger_service ex_state) (ascii ''/d/c'')"
    by (simp add: isIndexed_def ex_defs)
  have gone: "\<not> existsSync (files (ex_env ex_names)) (ascii ''/d/c'')"
    by (simp add: existsSync_def ex_defs)
  have here: "isIndexed (ledger_service ex_state) (ascii ''/d/a'') \<and>
      existsSync (files (ex_env ex_names)) (ascii ''/d/a'')"
    by (simp add: isIndexed_def existsSync_def ex_defs)
  from deletion_detection [OF ex_load loop dist inl gone] here dels inl gone
  show ?thesis by auto
qed

text \<open>
  Claim C5 (count conservation), as amended. The documents are loaded before the loop and
  outside its \<open>try\<close>: when the loader throws, as it does when one file of the directory
  cannot be loaded, the whole run is rejected. When the loader has returned the
  documents and the run returns a result, the result satisfies
  \<open>added + updated + skipped = total\<close>, and \<open>total\<close> plus the number of documents whose
  processing in the loop threw is the number of documents. A document whose processing
  in the loop throws an \<open>Error\<close> changes none of the three counters and the loop goes on;
  the run returns a result whenever no document makes a collaborator throw \<open>null\<close> or
  \<open>undefined\<close>.
\<close>

theorem count_conservation:
  "(loadFromDirectory ev dirPath recursive = Inl e \<longrightarrow>
      incrementalIndexDirectory ev dirPath recursive st = Inl e) \<and>
   (loadFromFile ev path = Inl e1 \<longrightarrow> path \<in> set filePaths \<longrightarrow>
      (\<exists>e'. loadFromFiles (loadFromFile ev) filePaths = Inl e')) \<and>
   (loadFromDirectory ev dirPath recursive = Inr documents \<longrightarrow>
    incrementalIndexDirectory ev dirPath recursive st = Inr (r, st') \<longrightarrow>
      added r + updated r + skipped r = total r \<and>
      total r + failedFiles ev documents (loop_init st) = length documents) \<and>
   (loadFromDirectory ev dirPath recursive = Inr documents \<longrightarrow>
    (\<forall>doc\<in>set documents. \<not> throws_nullish ev doc) \<longrightarrow>
      (\<exists>r st'. incrementalIndexDirectory ev dirPath recursive st = Inr (r, st'))) \<and>
   (fst (processFile_try ev doc s) = Some (Err e2) \<longrightarrow>
      (\<exists>s'. processFile ev doc s = Inr s' \<and>
            cnt_added s' = cnt_added s \<and> cnt_updated s' = cnt_updated s \<and>
            cnt_skipped s' = cnt_skipped s))"
proof -
  have a: "incrementalIndexDirectory ev dirPath recursive st = Inl e"
    if "loadFromDirectory ev dirPath recursive = Inl e"
    using that by (simp add: incrementalIndexDirectory_def)
  have b: "\<exists>e'. loadFromFiles (loadFromFile ev) filePaths = Inl e'"
    if "loadFromFile ev path = Inl e1" "path \<in> set filePaths"
    using that by (induction filePaths) (auto split: sum.splits)
  have c: "added r + updated r + skipped r = total r \<and>
      total r + failedFiles ev documents (loop_init st) = length documents"
    if load: "loadFromDirectory ev dirPath recursive = Inr documents"
      and run: "incrementalIndexDirectory ev dirPath recursive st = Inr (r, st')"
  proof -
    from run load obtain s0 where loop: "indexLoop ev documents (loop_init st) = Inr s0"
      and r: "r = \<lparr>added = cnt_added s0, updated = cnt_updated s0,
           deleted = length (findDeletedFiles (files ev) (indexingHistoryService s0)),
           skipped = cnt_skipped s0,
           total = cnt_added s0 + cnt_updated s0 + cnt_skipped s0\<rparr>"
      by (rule incrementalIndexDirectory_Inr)
    from indexLoop_counters [OF loop] show ?thesis
      by (simp add: r loop_init_def)
  qed
  have d: "\<exists>r st'. incrementalIndexDirectory ev dirPath recursive st = Inr (r, st')"
    if load: "loadFromDirectory ev dirPath recursive = Inr documents"
      and nn: "\<forall>doc\<in>set documents. \<not> throws_nullish ev doc"
  proof -
    from indexLoop_returns [OF nn, of "loop_init st"] obtain s0 where
      "indexLoop ev documents (loop_init st) = Inr s0"
      by blast
    from incrementalIndexDirectory_loaded [OF load this] show ?thesis
      by blast
  qed
  have f: "\<exists>s'. processFile ev doc s = Inr s' \<and>
            cnt_added s' = cnt_added s \<and> cnt_updated s' = cnt_updated s \<and>
            cnt_skipped s' = cnt_skipped s"
    if "fst (processFile_try ev doc s) = Some (Err e2)"
    using processFile_Err [OF that] try_throws [OF that] by simp
  from a b c d f show ?thesis
    by blast
qed

text \<open>
  On the example with the name \<open>x\<close>: the file of \<open>/d/x\<close> cannot be hashed, its processing
  throws an \<open>Error\<close>, and the total is two of three.
\<close>

theorem count_conservation_witness:
  "loadFromDirectory (ex_env ex_names_x) (ascii ''/d'') True = Inr ex_docs_x \<and>
   fst (processFile_try (ex_env ex_names_x) (ex_doc (ascii ''/d/x'')) (loop_init ex_state))
     = Some (Err FsError) \<and>
   failedFiles (ex_env ex_names_x) ex_docs_x (loop_init ex_state) = 1 \<and>
   (\<exists>r st'.
      incrementalIndexDirectory (ex_env ex_names_x) (ascii ''/d'') True ex_state = Inr (r, st') \<and>
      added r + updated r + skipped r = total r \<and> total r = 2)"
proof -
  have thrown: "fst (processFile_try (ex_env ex_names_x) (ex_doc (ascii ''/d/x''))
      (loop_init ex_state)) = Some (Err FsError)"
    by (simp add: processFile_try_def run_defs ex_defs)
  have failed: "failedFiles (ex_env ex_names_x) ex_docs_x (loop_init ex_state) = 1"
    by (simp add: loop_defs run_defs ex_defs)
  have nn: "\<forall>doc\<in>set ex_docs_x. \<not> throws_nullish (ex_env ex_names_x) doc"
    by (simp add: throws_nullish_def run_defs ex_defs)
  have len: "length ex_docs_x = 3"
    by (simp add: ex_docs_x_def)
  from count_conservation [where ev = "ex_env ex_names_x" and dirPath = "ascii ''/d''"
      and recursive = True and st = ex_state and documents = ex_docs_x]
    ex_load_x nn
  obtain r st' where
    run: "incrementalIndexDirectory (ex_env ex_names_x) (ascii ''/d'') True ex_state = Inr (r, st')"
    by blast
  from count_conservation [where ev = "ex_env ex_names_x" and dirPath = "ascii ''/d''"
      and recursive = True and st = ex_state and documents = ex_docs_x and r = r and st' = st']
    ex_load_x run failed len
  have "added r + updated r + skipped r = total r \<and> total r = 2"
    by auto
  with ex_load_x thrown failed run show ?thesis
    by blast
qed

text \<open>
  The claim C5 as stated has every per-file failure caught and the run not aborted. In
  the directory of \<open>ex_env_bad\<close> the file \<open>/d/a\<close> loads and \<open>/d/bad.json\<close> does not: the
  run is rejected with the loader's error and returns no counts.
\<close>

theorem load_failure_aborts_run:
  "loadFromFile ex_env_bad (ascii ''/d/a'') = Inr (ex_doc (ascii ''/d/a'')) \<and>
   loadFromFile ex_env_bad (ascii ''/d/bad.json'') = Inl LoadError \<and>
   incrementalIndexDirectory ex_env_bad (ascii ''/d'') True ex_state = Inl LoadError"
  by (simp add: incrementalIndexDirectory_def load_defs ex_defs)




section \<open>Loading and saving the ledger\<close>

text \<open>
  Claim C8 (ledger load robustness), as amended. The constructor is a total function
  of the state of the ledger file. For an absent, an unreadable and a corrupt file it
  yields the empty ledger, in which no path is indexed, so that a document processed
  against it is never skipped or counted as updated, and is counted as added when its
  processing does not fail. It logs a warning for an unreadable and for a corrupt file;
  for an absent file it logs nothing.
\<close>

theorem ledger_load_robust:
  "history (constructor Absent) = [] \<and> logger (constructor Absent) = [] \<and>
   history (constructor Unreadable) = [] \<and>
   logger (constructor Unreadable) = [LoadFailedWarn FsError] \<and>
   history (constructor Corrupt) = [] \<and>
   logger (constructor Corrupt) = [LoadFailedWarn SyntaxError] \<and>
   (\<forall>f p. f \<in> {Absent, Unreadable, Corrupt} \<longrightarrow> \<not> isIndexed (constructor f) p) \<and>
   (\<forall>f ev doc s. f \<in> {Absent, Unreadable, Corrupt} \<longrightarrow>
      indexingHistoryService s = constructor f \<longrightarrow>
        cnt_skipped (snd (processFile_try ev doc s)) = cnt_skipped s \<and>
        cnt_updated (snd (processFile_try ev doc s)) = cnt_updated s \<and>
        (processes_cleanly ev doc \<longrightarrow>
           processFile ev doc s = Inr (snd (processFile_try ev doc s)) \<and>
           cnt_added (snd (processFile_try ev doc s)) = cnt_added s + 1))"
proof -
  have empty: "history (constructor f) = []" if "f \<in> {Absent, Unreadable, Corrupt}" for f
    using that by (auto simp: constructor_def loadHistory_def loadHistory_try_def)
  have step: "cnt_skipped (snd (processFile_try ev doc s)) = cnt_skipped s \<and>
        cnt_updated (snd (processFile_try ev doc s)) = cnt_updated s \<and>
        (processes_cleanly ev doc \<longrightarrow>
           processFile ev doc s = Inr (snd (processFile_try ev doc s)) \<and>
           cnt_added (snd (processFile_try ev doc s)) = cnt_added s + 1)"
    if "history (indexingHistoryService s) = []" for ev doc s
    using that processes_cleanly_no_throw [of ev doc s]
      processFile_None [of ev doc s]
    by (auto simp: processFile_try_def isIndexed_def
        split: option.splits sum.splits)
  show ?thesis
    using empty step
    by (auto simp: constructor_def loadHistory_def loadHistory_try_def isIndexed_def)
qed

text \<open>In particular, for an unreadable and for a corrupt file.\<close>

theorem ledger_load_robust_witness:
  "history (constructor Unreadable) = [] \<and>
   logger (constructor Corrupt) = [LoadFailedWarn SyntaxError] \<and>
   \<not> isIndexed (constructor Corrupt) (ascii ''/d/a'')"
  using ledger_load_robust by blast

text \<open>
  The claim C8 as stated has a warning logged in each of the three states; for an absent
  file there is none.
\<close>

theorem absent_ledger_no_warning:
  "logger (constructor Absent) = []"
  by (simp add: constructor_def loadHistory_def loadHistory_try_def)

text \<open>
  Claim C10 (silent persistence failure). When \<open>fs.writeFileSync\<close> throws \<open>e\<close>, so
  that the \<open>try\<close> block of \<open>saveHistory\<close> is left by \<open>e\<close>, each of
  \<open>recordIndexing\<close>, \<open>removeRecord\<close> and \<open>clearHistory\<close> still returns, with the
  in-memory map set, deleted from or emptied, the ledger file as it was before the call,
  and the failure only logged.
\<close>

theorem persistence_failure_silent:
  "saveHistory_try (Some e) s' = Inl e \<and>
   history (recordIndexing (Some e) now fp h m n s) =
      AList.update fp \<lparr>hash = h, modifiedTime = m, chunkCount = n, indexedAt = now\<rparr> (history s) \<and>
   historyFile (recordIndexing (Some e) now fp h m n s) = historyFile s \<and>
   logger (recordIndexing (Some e) now fp h m n s) = logger s @ [SaveFailedError e] \<and>
   history (removeRecord (Some e) fp s) = AList.delete fp (history s) \<and>
   historyFile (removeRecord (Some e) fp s) = historyFile s \<and>
   logger (removeRecord (Some e) fp s) = logger s @ [SaveFailedError e] \<and>
   history (clearHistory (Some e) s) = [] \<and>
   historyFile (clearHistory (Some e) s) = historyFile s \<and>
   logger (clearHistory (Some e) s) = logger s @ [SaveFailedError e, HistoryClearedLog]"
  by (simp add: recordIndexing_def removeRecord_def clearHistory_def saveHistory_def
        saveHistory_try_def)

text \<open>On the example: a record set, and a ledger cleared, while the file cannot be written.\<close>

theorem persistence_failure_silent_witness:
  "history (recordIndexing (Some FsError) (ascii ''t1'') (ascii ''/d/b'') (ascii ''h2'') (ascii ''t0'') 1
      (constructor Absent)) =
     [(ascii ''/d/b'',
       \<lparr>hash = ascii ''h2'', modifiedTime = ascii ''t0'', chunkCount = 1, indexedAt = ascii ''t1''\<rparr>)] \<and>
   historyFile (recordIndexing (Some FsError) (ascii ''t1'') (ascii ''/d/b'') (ascii ''h2'') (ascii ''t0'') 1
      (constructor Absent)) = Absent \<and>
   history (clearHistory (Some FsError) ex_service) = [] \<and>
   historyFile (clearHistory (Some FsError) ex_service) = Absent"
proof -
  have c: "history (constructor Absent) = [] \<and> historyFile (constructor Absent) = Absent"
    by (simp add: constructor_def loadHistory_def loadHistory_try_def)
  have x: "historyFile ex_service = Absent"
    by (simp add: ex_service_def)
  from persistence_failure_silent [of FsError _ "ascii ''t1''" "ascii ''/d/b''" "ascii ''h2''"
      "ascii ''t0''" 1 "constructor Absent"]
    persistence_failure_silent [of FsError _ _ _ _ _ _ ex_service] c x
  show ?thesis by simp
qed

section \<open>Query and re-ranking\<close>

lemma js_includes_Nil: "js_includes [] t = (t = [])"
  by (simp add: js_includes_def)

lemma js_includes_Cons: "js_includes (x # xs) t = (prefix t (x # xs) \<or> js_includes xs t)"
  by (simp add: js_includes_def sublist_Cons_right)

lemma extractLoop_find:
  "extractLoop question lq cs = map_option ko (find (companyMatches question lq) cs)"
  by (induction cs) auto

lemma companies_ko_nonempty: "c \<in> set companies \<Longrightarrow> ko c \<noteq> []"
  by (auto simp: companies_def ascii_def)

lemma extractCompanyName_nonempty: "extractCompanyName lower question = Some c \<Longrightarrow> c \<noteq> []"
  by (auto simp: extractCompanyName_def extractLoop_find find_Some_iff companies_ko_nonempty
      dest!: nth_mem [THEN companies_ko_nonempty])

lemmas q_defs = extractCompanyName_def companies_def companyMatches_def asciiLower_def
  js_includes_Nil js_includes_Cons ascii_def

lemmas cand_defs = ex_candidates_def ex_chunk_def companyFilter_def lowerOrEmpty_def

text \<open>
  Claim C2 (re-ranking fallback). When \<open>query\<close> returns, a company name was extracted
  from the question and no candidate passes the company filter, the sources are the
  first four candidates of the unfiltered list: exactly four when there are at least
  four candidates, and not empty unless there are no candidates at all.
\<close>

theorem reranking_fallback:
  assumes "query lower search llm question = Inr r"
      and "search question 10 = Inr candidateDocs"
      and "extractCompanyName lower question = Some companyName"
      and "\<forall>doc\<in>set candidateDocs. \<not> companyFilter lower companyName doc"
  shows "sourceDocuments r = take 4 candidateDocs \<and>
         (4 \<le> length candidateDocs \<longrightarrow> length (sourceDocuments r) = 4) \<and>
         (candidateDocs \<noteq> [] \<longrightarrow> sourceDocuments r \<noteq> [])"
proof -
  have "filter (companyFilter lower companyName) candidateDocs = []"
    using assms(4) by (simp add: filter_empty_conv)
  then have "relevantDocs lower question candidateDocs = take 4 candidateDocs"
    using assms(3) by (simp add: relevantDocs_def)
  with assms(1,2) have "sourceDocuments r = take 4 candidateDocs"
    by (auto simp: query_def Let_def split: sum.splits)
  then show ?thesis by auto
qed

text \<open>On the example: the question names Coupang by its alias, no candidate holds the Korean name, and the first four candidates are the sources.\<close>

theorem reranking_fallback_witness:
  "extractCompanyName asciiLower (ascii ''coupang pay'') = Some [53216, 54049] \<and>
   \<not> companyFilter asciiLower [53216, 54049] (ex_candidates ! 0) \<and>
   (\<exists>r. query asciiLower ex_search ex_llm (ascii ''coupang pay'') = Inr r \<and>
        sourceDocuments r = take 4 ex_candidates \<and> length (sourceDocuments r) = 4)"
proof -
  obtain r where q: "query asciiLower ex_search ex_llm (ascii ''coupang pay'') = Inr r"
    by (simp add: query_def ex_search_def ex_llm_def Let_def)
  have s: "ex_search (ascii ''coupang pay'') 10 = Inr ex_candidates"
    by (simp add: ex_search_def)
  have e: "extractCompanyName asciiLower (ascii ''coupang pay'') = Some [53216, 54049]"
    by (simp add: q_defs)
  have n: "\<forall>doc\<in>set ex_candidates. \<not> companyFilter asciiLower [53216, 54049] doc"
    by (simp add: cand_defs q_defs)
  have l: "4 \<le> length ex_candidates"
    by (simp add: ex_candidates_def)
  from reranking_fallback [OF q s e n] q e n l
  show ?thesis by (auto simp: ex_candidates_def)
qed

lemma relevantDocs_shape:
  "\<exists>P. relevantDocs lower question candidateDocs = take 4 (filter P candidateDocs)"
proof -
  have a: "take 4 candidateDocs = take 4 (filter (\<lambda>d. True) candidateDocs)" by simp
  show ?thesis
    unfolding relevantDocs_def Let_def
    by (auto split: option.splits intro: exI [of _ "\<lambda>d. True"])
qed

text \<open>
  Claim C6 (order preservation). The sources \<open>query\<close> returns are the first four
  elements of a filtering of the candidate list the similarity search returned, hence a
  subsequence of it: candidates are dropped, never reordered or changed.
\<close>

theorem rerank_order_preserving:
  assumes "query lower search llm question = Inr r"
  shows "\<exists>candidateDocs P.
           search question 10 = Inr candidateDocs \<and>
           sourceDocuments r = take 4 (filter P candidateDocs) \<and>
           subseq (sourceDocuments r) candidateDocs"
proof -
  from assms obtain candidateDocs where
    c: "search question 10 = Inr candidateDocs"
    and s: "sourceDocuments r = relevantDocs lower question candidateDocs"
    by (auto simp: query_def Let_def split: sum.splits)
  from relevantDocs_shape obtain P where
    p: "relevantDocs lower question candidateDocs = take 4 (filter P candidateDocs)"
    by blast
  have "subseq (take 4 (filter P candidateDocs)) (filter P candidateDocs)"
    by (metis append_take_drop_id prefix_def prefix_imp_subseq)
  then have "subseq (take 4 (filter P candidateDocs)) candidateDocs"
    using subseq_filter_left subseq_order.trans by blast
  with c s p show ?thesis by auto
qed

text \<open>On the example: a question that names Toss.\<close>

theorem rerank_order_preserving_witness:
  "\<exists>r. query asciiLower ex_search ex_llm (ascii ''toss fee'') = Inr r \<and>
       subseq (sourceDocuments r) ex_candidates"
proof -
  obtain r where q: "query asciiLower ex_search ex_llm (ascii ''toss fee'') = Inr r"
    by (simp add: query_def ex_search_def ex_llm_def Let_def)
  from rerank_order_preserving [OF q] q
  show ?thesis by (auto simp: ex_search_def)
qed

lemma companies_alias:
  "c \<in> set companies \<Longrightarrow>
     (js_includes (en c) (ko c) \<longleftrightarrow> ko c = en c) \<and>
     (ko c = en c \<longleftrightarrow> ko c = ascii ''lg'' \<or> ko c = ascii ''skt'')"
  by (auto simp: companies_def ascii_def js_includes_Nil js_includes_Cons)

text \<open>
  Claim C9 (canonical-form filtering), as amended. When \<open>c\<close> is the first entry of the
  table that the question matches (by its Korean name, or by its alias in the
  lower-cased question, as for a question that holds only the alias),
  \<open>extractCompanyName\<close> returns the Korean name of \<open>c\<close>; the candidates are filtered by
  that name, lower-cased, with the fallback to the unfiltered list; and a candidate
  passes exactly when its file name, company name or English company name contains it.
  So a candidate tagged only with the alias (its \<open>company_name_en\<close> is the alias in some
  letter case, and neither its file name nor its company name holds the Korean name)
  passes exactly when the Korean name of \<open>c\<close> is the alias itself, which is so for the
  entries \<open>lg\<close> and \<open>skt\<close> and for no other: for every other entry it does not pass.
  The Korean name is taken to be its own lower case, as it is for every entry.
\<close>

theorem canonical_form_filtering:
  assumes "find (companyMatches question (lower question)) companies = Some c"
  shows "extractCompanyName lower question = Some (ko c) \<and>
         relevantDocs lower question candidateDocs =
           (if \<exists>doc\<in>set candidateDocs. companyFilter lower (ko c) doc
            then take 4 (filter (companyFilter lower (ko c)) candidateDocs)
            else take 4 candidateDocs) \<and>
         (\<forall>doc. companyFilter lower (ko c) doc \<longleftrightarrow>
            js_includes (lowerOrEmpty lower (fileName (metadata doc))) (lower (ko c)) \<or>
            js_includes (lowerOrEmpty lower (company_name (metadata doc))) (lower (ko c)) \<or>
            js_includes (lowerOrEmpty lower (company_name_en (metadata doc))) (lower (ko c))) \<and>
         (\<forall>doc a.
            \<not> js_includes (lowerOrEmpty lower (fileName (metadata doc))) (lower (ko c)) \<longrightarrow>
            \<not> js_includes (lowerOrEmpty lower (company_name (metadata doc))) (lower (ko c)) \<longrightarrow>
            company_name_en (metadata doc) = Some a \<longrightarrow>
            lower a = en c \<longrightarrow>
            lower (ko c) = ko c \<longrightarrow>
              (companyFilter lower (ko c) doc \<longleftrightarrow> ko c = en c)) \<and>
         (ko c = en c \<longleftrightarrow> ko c = ascii ''lg'' \<or> ko c = ascii ''skt'')"
proof -
  have e: "extractCompanyName lower question = Some (ko c)"
    using assms by (simp add: extractCompanyName_def extractLoop_find)
  have mem: "c \<in> set companies"
    using assms by (auto simp: find_Some_iff)
  then have ne: "ko c \<noteq> []" by (rule companies_ko_nonempty)
  have r: "relevantDocs lower question candidateDocs =
           (if \<exists>doc\<in>set candidateDocs. companyFilter lower (ko c) doc
            then take 4 (filter (companyFilter lower (ko c)) candidateDocs)
            else take 4 candidateDocs)"
    using e ne by (auto simp: relevantDocs_def Let_def filter_empty_conv)
  have f: "companyFilter lower (ko c) doc \<longleftrightarrow>
            js_includes (lowerOrEmpty lower (fileName (metadata doc))) (lower (ko c)) \<or>
            js_includes (lowerOrEmpty lower (company_name (metadata doc))) (lower (ko c)) \<or>
            js_includes (lowerOrEmpty lower (company_name_en (metadata doc))) (lower (ko c))"
    for doc
    by (simp add: companyFilter_def Let_def)
  have t: "companyFilter lower (ko c) doc \<longleftrightarrow> ko c = en c"
    if "\<not> js_includes (lowerOrEmpty lower (fileName (metadata doc))) (lower (ko c))"
      "\<not> js_includes (lowerOrEmpty lower (company_name (metadata doc))) (lower (ko c))"
      "company_name_en (metadata doc) = Some a" "lower a = en c" "lower (ko c) = ko c"
    for doc a
    using that companies_alias [OF mem] by (simp add: f lowerOrEmpty_def)
  from e r f t companies_alias [OF mem] show ?thesis
    by blast
qed

text \<open>
  On the example: the question holds only the alias \<open>coupang\<close>; the candidate tagged
  \<open>Coupang\<close> in \<open>company_name_en\<close> does not pass, and the unfiltered list is used.
\<close>

theorem canonical_form_filtering_witness:
  "\<not> js_includes (ascii ''coupang pay'') [53216, 54049] \<and>
   js_includes (asciiLower (ascii ''coupang pay'')) (ascii ''coupang'') \<and>
   extractCompanyName asciiLower (ascii ''coupang pay'') = Some [53216, 54049] \<and>
   company_name_en (metadata (ex_candidates ! 0)) = Some (ascii ''Coupang'') \<and>
   \<not> companyFilter asciiLower [53216, 54049] (ex_candidates ! 0) \<and>
   relevantDocs asciiLower (ascii ''coupang pay'') ex_candidates = take 4 ex_candidates"
proof -
  let ?c = "\<lparr>ko = [53216, 54049], en = ascii ''coupang''\<rparr>"
  have f: "find (companyMatches (ascii ''coupang pay'') (asciiLower (ascii ''coupang pay''))) companies
      = Some ?c"
    by (simp add: q_defs)
  have a: "\<not> js_includes (ascii ''coupang pay'') [53216, 54049] \<and>
      js_includes (asciiLower (ascii ''coupang pay'')) (ascii ''coupang'')"
    by (simp add: q_defs)
  have n: "\<not> (\<exists>doc\<in>set ex_candidates.
      js_includes (lowerOrEmpty asciiLower (fileName (metadata doc))) (asciiLower [53216, 54049]) \<or>
      js_includes (lowerOrEmpty asciiLower (company_name (metadata doc))) (asciiLower [53216, 54049]) \<or>
      js_includes (lowerOrEmpty asciiLower (company_name_en (metadata doc))) (asciiLower [53216, 54049]))"
    by (simp add: ex_candidates_def ex_chunk_def lowerOrEmpty_def q_defs)
  have m: "company_name_en (metadata (ex_candidates ! 0)) = Some (ascii ''Coupang'') \<and>
      asciiLower (ascii ''Coupang'') = en ?c \<and> asciiLower (ko ?c) = ko ?c \<and> ko ?c \<noteq> en ?c \<and>
      \<not> js_includes (lowerOrEmpty asciiLower (fileName (metadata (ex_candidates ! 0))))
          (asciiLower (ko ?c)) \<and>
      \<not> js_includes (lowerOrEmpty asciiLower (company_name (metadata (ex_candidates ! 0))))
          (asciiLower (ko ?c))"
    by (simp add: ex_candidates_def ex_chunk_def lowerOrEmpty_def q_defs)
  from canonical_form_filtering [where lower = asciiLower and question = "ascii ''coupang pay''"
      and candidateDocs = ex_candidates, OF f]
  have res: "extractCompanyName asciiLower (ascii ''coupang pay'') = Some (ko ?c)"
    "relevantDocs asciiLower (ascii ''coupang pay'') ex_candidates =
           (if \<exists>doc\<in>set ex_candidates. companyFilter asciiLower (ko ?c) doc
            then take 4 (filter (companyFilter asciiLower (ko ?c)) ex_candidates)
            else take 4 ex_candidates)"
    "\<forall>doc. companyFilter asciiLower (ko ?c) doc \<longleftrightarrow>
            js_includes (lowerOrEmpty asciiLower (fileName (metadata doc))) (asciiLower (ko ?c)) \<or>
            js_includes (lowerOrEmpty asciiLower (company_name (metadata doc))) (asciiLower (ko ?c)) \<or>
            js_includes (lowerOrEmpty asciiLower (company_name_en (metadata doc))) (asciiLower (ko ?c))"
    "\<forall>doc a.
            \<not> js_includes (lowerOrEmpty asciiLower (fileName (metadata doc))) (asciiLower (ko ?c)) \<longrightarrow>
            \<not> js_includes (lowerOrEmpty asciiLower (company_name (metadata doc))) (asciiLower (ko ?c)) \<longrightarrow>
            company_name_en (metadata doc) = Some a \<longrightarrow>
            asciiLower a = en ?c \<longrightarrow>
            asciiLower (ko ?c) = ko ?c \<longrightarrow>
              (companyFilter asciiLower (ko ?c) doc \<longleftrightarrow> ko ?c = en ?c)"
    by blast+
  from res(4) m have nopass: "\<not> companyFilter asciiLower (ko ?c) (ex_candidates ! 0)"
    by blast
  from res(3) n have "\<not> (\<exists>doc\<in>set ex_candidates. companyFilter asciiLower (ko ?c) doc)"
    by simp
  with res(2) have "relevantDocs asciiLower (ascii ''coupang pay'') ex_candidates =
      take 4 ex_candidates"
    by simp
  with a res(1) m nopass show ?thesis
    by simp
qed

text \<open>
  The claim C9 as stated has no candidate tagged only with the alias pass the filter.
  The question \<open>LG pay\<close> does not hold the form \<open>lg\<close> as written and holds the alias
  \<open>lg\<close> once lower-cased; the name extracted is \<open>lg\<close>, and the candidate tagged only
  \<open>LG\<close> in \<open>company_name_en\<close> passes the filter and is the one source kept.
\<close>

theorem alias_tagged_candidate_passes:
  "\<not> js_includes (ascii ''LG pay'') (ascii ''lg'') \<and>
   js_includes (asciiLower (ascii ''LG pay'')) (ascii ''lg'') \<and>
   extractCompanyName asciiLower (ascii ''LG pay'') = Some (ascii ''lg'') \<and>
   companyFilter asciiLower (ascii ''lg'') (ex_chunk ''c7'' None (Some (ascii ''LG''))) \<and>
   relevantDocs asciiLower (ascii ''LG pay'') ex_candidates_lg =
     [ex_chunk ''c7'' None (Some (ascii ''LG''))]"
  by (simp add: relevantDocs_def ex_candidates_lg_def cand_defs q_defs)

section \<open>The directory scan\<close>

lemma getAllFiles_visible:
  "getAllFiles pj items dirPath recursive = Inr found \<Longrightarrow>
      \<forall>p\<in>set found. \<exists>d item. p = pj d item \<and> \<not> startsWith item (ascii ''.'')"
  "scanItem pj it dirPath recursive = Inr found \<Longrightarrow>
      \<forall>p\<in>set found. \<exists>d item. p = pj d item \<and> \<not> startsWith item (ascii ''.'')"
proof (induction pj items dirPath recursive and pj it dirPath recursive
       arbitrary: found and found rule: getAllFiles_scanItem.induct)
  case (1 pj dirPath recursive)
  then show ?case by simp
next
  case (2 pj item items dirPath recursive)
  from "2.prems" obtain a b where
    a: "scanItem pj item dirPath recursive = Inr a"
    and b: "getAllFiles pj items dirPath recursive = Inr b"
    and f: "found = a @ b"
    by (auto split: sum.splits)
  from "2.IH"(1) [OF a] "2.IH"(2) [OF a b] f show ?case
    by auto
next
  case (3 pj item dirPath recursive)
  then show ?case by (fastforce split: if_splits)
next
  case (4 pj item children dirPath recursive)
  then show ?case by (auto split: if_splits)
next
  case (5 pj item dirPath recursive)
  then show ?case by simp
next
  case (6 pj item dirPath recursive)
  then show ?case by (auto split: if_splits)
qed

lemma getAllFiles_top_level:
  "getAllFiles pj items dirPath recursive = Inr found \<Longrightarrow>
     FileItem item \<in> set items \<Longrightarrow> \<not> startsWith item (ascii ''.'') \<Longrightarrow>
     pj dirPath item \<in> set found"
  by (induction items arbitrary: found) (auto split: sum.splits)

text \<open>
  Claim C7 (hidden entries), as amended. Every path the scan returns is the join of a
  directory and an entry name that does not start with a dot, and every entry of the
  scanned directory that is not a directory and does not start with a dot is returned;
  an entry that is not a directory and starts with a dot contributes nothing. A
  directory is descended into, when the scan is recursive, whatever its name.
\<close>

theorem hidden_files_skipped:
  "(getAllFiles pj items dirPath recursive = Inr found \<longrightarrow>
      (\<forall>p\<in>set found. \<exists>d item. p = pj d item \<and> \<not> startsWith item (ascii ''.'')) \<and>
      (\<forall>item. FileItem item \<in> set items \<longrightarrow> \<not> startsWith item (ascii ''.'') \<longrightarrow>
           pj dirPath item \<in> set found)) \<and>
   (startsWith item (ascii ''.'') \<longrightarrow> scanItem pj (FileItem item) dirPath recursive = Inr []) \<and>
   scanItem pj (DirItem item children) dirPath True = getAllFiles pj children (pj dirPath item) True"
  using getAllFiles_visible(1) [of pj items dirPath recursive found]
    getAllFiles_top_level [of pj items dirPath recursive found]
  by auto

text \<open>On the example directory: \<open>a.txt\<close> is returned and \<open>.env\<close> is not.\<close>

theorem hidden_files_skipped_witness:
  "getAllFiles slash_join ex_items (ascii ''docs'') True =
     Inr [ascii ''docs/a.txt'', ascii ''docs/.git/config''] \<and>
   slash_join (ascii ''docs'') (ascii ''a.txt'') \<in> set [ascii ''docs/a.txt'', ascii ''docs/.git/config''] \<and>
   scanItem slash_join (FileItem (ascii ''.env'')) (ascii ''docs'') True = Inr []"
proof -
  have g: "getAllFiles slash_join ex_items (ascii ''docs'') True =
     Inr [ascii ''docs/a.txt'', ascii ''docs/.git/config'']"
    by (simp add: ex_items_def slash_join_def startsWith_def ascii_def)
  have v: "FileItem (ascii ''a.txt'') \<in> set ex_items \<and> \<not> startsWith (ascii ''a.txt'') (ascii ''.'')"
    by (simp add: ex_items_def startsWith_def ascii_def)
  have h: "startsWith (ascii ''.env'') (ascii ''.'')"
    by (simp add: startsWith_def ascii_def)
  from hidden_files_skipped [of slash_join ex_items "ascii ''docs''" True
      "[ascii ''docs/a.txt'', ascii ''docs/.git/config'']" "ascii ''.env''"] g v h
  show ?thesis by blast
qed

text \<open>
  The claim C7 as stated has no file under a hidden entry returned; the file \<open>config\<close>
  under the hidden directory \<open>.git\<close> is returned.
\<close>

theorem hidden_directory_counterexample:
  "getAllFiles slash_join [DirItem (ascii ''.git'') [FileItem (ascii ''config'')]] (ascii ''docs'') True
     = Inr [ascii ''docs/.git/config'']"
  by (simp add: slash_join_def ascii_def startsWith_def)

end
